theory Spec2Isabelle
  imports Complex_Main "HOL-Library.Word"
begin

section \<open>Values of the Go runtime and of the two libraries the interceptor calls\<close>

text \<open>
  \<^verbatim>\<open>interceptor.go\<close> calls three things it does not define: \<^verbatim>\<open>strings.Split\<close>, the
  status codes and errors of connect-go, and the metric vectors of the Prometheus client,
  which check their label values with \<^verbatim>\<open>utf8.ValidString\<close>. None of them is under
  \<^verbatim>\<open>src/\<close>; they are written out here as far as the interceptor uses them, their
  panics included. A Go string is a sequence of bytes, which is what \<^typ>\<open>string\<close> is.
\<close>

subsection \<open>Panics\<close>

text \<open>
  The panics the calls of the interceptor can raise: a registration under a name that is
  taken, a vector asked for the wrong number of label values, a vector asked for a label
  value that is not valid UTF-8 (the value is kept), and a method that reads a field
  through a nil pointer.
\<close>

datatype panic =
    AlreadyRegisteredError string
  | InconsistentCardinality
  | InvalidLabelValue string
  | NilPointerDereference

subsection \<open>strings.Split\<close>

text \<open>
  \<^verbatim>\<open>strings.Split(s, sep)\<close> for a separator of one byte: cut at the first separator, keep
  the part before it, go on with the part after it; the rest that holds no separator is
  the last segment. The empty string gives one empty segment.
\<close>

function Split :: "string \<Rightarrow> char \<Rightarrow> string list" where
  "Split s sep =
     (case dropWhile (\<lambda>c. c \<noteq> sep) s of
        [] \<Rightarrow> [s]
      | _ # rest \<Rightarrow> takeWhile (\<lambda>c. c \<noteq> sep) s # Split rest sep)"
  by pat_completeness auto
termination
proof (relation "measure (\<lambda>(s, sep). length s)")
  show "wf (measure (\<lambda>(s, sep). length s))" by simp
next
  fix s :: string and sep x rest
  assume "dropWhile (\<lambda>c. c \<noteq> sep) s = x # rest"
  then have "Suc (length rest) = length (dropWhile (\<lambda>c. c \<noteq> sep) s)" by simp
  also have "\<dots> \<le> length s" by (rule length_dropWhile_le)
  finally show "((rest, sep), (s, sep)) \<in> measure (\<lambda>(s, sep). length s)" by simp
qed

declare Split.simps [simp del]

subsection \<open>utf8.ValidString\<close>

text \<open>
  \<^verbatim>\<open>utf8.ValidString(s)\<close>: the bytes of \<open>s\<close> are a sequence of well-formed UTF-8
  encodings. One byte below \<open>0x80\<close>; a lead byte \<open>0xC2..0xDF\<close> and one continuation
  byte; \<open>0xE0..0xEF\<close> and two; \<open>0xF0..0xF4\<close> and three. Continuation bytes are
  \<open>0x80..0xBF\<close>, and the first of them is narrowed after \<open>0xE0\<close>, \<open>0xED\<close>, \<open>0xF0\<close>
  and \<open>0xF4\<close>, which shuts out overlong forms, surrogates and values above \<open>0x10FFFF\<close>.
\<close>

definition byte_in :: "char \<Rightarrow> nat \<Rightarrow> nat \<Rightarrow> bool" where
  "byte_in c lo hi = (lo \<le> of_char c \<and> of_char c \<le> hi)"

fun ValidString :: "string \<Rightarrow> bool" where
  "ValidString [] = True"
| "ValidString (c # cs) =
     (if byte_in c 0x00 0x7F then ValidString cs
      else if byte_in c 0xC2 0xDF then
        (case cs of
           c1 # r \<Rightarrow> byte_in c1 0x80 0xBF \<and> ValidString r
         | _ \<Rightarrow> False)
      else if byte_in c 0xE0 0xEF then
        (case cs of
           c1 # c2 # r \<Rightarrow>
             byte_in c1 (if byte_in c 0xE0 0xE0 then 0xA0 else 0x80)
                        (if byte_in c 0xED 0xED then 0x9F else 0xBF)
             \<and> byte_in c2 0x80 0xBF \<and> ValidString r
         | _ \<Rightarrow> False)
      else if byte_in c 0xF0 0xF4 then
        (case cs of
           c1 # c2 # c3 # r \<Rightarrow>
             byte_in c1 (if byte_in c 0xF0 0xF0 then 0x90 else 0x80)
                        (if byte_in c 0xF4 0xF4 then 0x8F else 0xBF)
             \<and> byte_in c2 0x80 0xBF \<and> byte_in c3 0x80 0xBF \<and> ValidString r
         | _ \<Rightarrow> False)
      else False)"

subsection \<open>connect-go: status codes, errors, stream types\<close>

text \<open>\<^verbatim>\<open>type Code uint32\<close> with the sixteen codes of connect-go, numbered from 1.\<close>

type_synonym Code = "32 word"

definition CodeCanceled :: Code where "CodeCanceled = 1"
definition CodeUnknown :: Code where "CodeUnknown = 2"
definition CodeInvalidArgument :: Code where "CodeInvalidArgument = 3"
definition CodeDeadlineExceeded :: Code where "CodeDeadlineExceeded = 4"
definition CodeNotFound :: Code where "CodeNotFound = 5"
definition CodeAlreadyExists :: Code where "CodeAlreadyExists = 6"
definition CodePermissionDenied :: Code where "CodePermissionDenied = 7"
definition CodeResourceExhausted :: Code where "CodeResourceExhausted = 8"
definition CodeFailedPrecondition :: Code where "CodeFailedPrecondition = 9"
definition CodeAborted :: Code where "CodeAborted = 10"
definition CodeOutOfRange :: Code where "CodeOutOfRange = 11"
definition CodeUnimplemented :: Code where "CodeUnimplemented = 12"
definition CodeInternal :: Code where "CodeInternal = 13"
definition CodeUnavailable :: Code where "CodeUnavailable = 14"
definition CodeDataLoss :: Code where "CodeDataLoss = 15"
definition CodeUnauthenticated :: Code where "CodeUnauthenticated = 16"

text \<open>The sixteen codes, in the order of their numbers.\<close>

definition codes :: "Code list" where
  "codes =
     [CodeCanceled, CodeUnknown, CodeInvalidArgument, CodeDeadlineExceeded,
      CodeNotFound, CodeAlreadyExists, CodePermissionDenied, CodeResourceExhausted,
      CodeFailedPrecondition, CodeAborted, CodeOutOfRange, CodeUnimplemented,
      CodeInternal, CodeUnavailable, CodeDataLoss, CodeUnauthenticated]"

text \<open>The decimal digits of a number, as \<^verbatim>\<open>%d\<close> prints them.\<close>

fun decimal :: "nat \<Rightarrow> string" where
  "decimal n =
     (if n < 10 then [''0123456789'' ! n]
      else decimal (n div 10) @ [''0123456789'' ! (n mod 10)])"

declare decimal.simps [simp del]

text \<open>
  Modelled from the spec: \<^verbatim>\<open>connect.Code.String\<close>, which \<^verbatim>\<open>code\<close> calls, is part
  of connect-go and not under \<^verbatim>\<open>src/\<close>. It is the canonical name of each status of
  the fixed enumeration, as connect-go prints it (lower case, the words joined by an
  underscore); any other number is printed by \<^verbatim>\<open>fmt.Sprintf("code_%d", c)\<close>.
\<close>

definition Code_String :: "Code \<Rightarrow> string" where
  "Code_String c =
     (if c = CodeCanceled then ''canceled''
      else if c = CodeUnknown then ''unknown''
      else if c = CodeInvalidArgument then ''invalid_argument''
      else if c = CodeDeadlineExceeded then ''deadline_exceeded''
      else if c = CodeNotFound then ''not_found''
      else if c = CodeAlreadyExists then ''already_exists''
      else if c = CodePermissionDenied then ''permission_denied''
      else if c = CodeResourceExhausted then ''resource_exhausted''
      else if c = CodeFailedPrecondition then ''failed_precondition''
      else if c = CodeAborted then ''aborted''
      else if c = CodeOutOfRange then ''out_of_range''
      else if c = CodeUnimplemented then ''unimplemented''
      else if c = CodeInternal then ''internal''
      else if c = CodeUnavailable then ''unavailable''
      else if c = CodeDataLoss then ''data_loss''
      else if c = CodeUnauthenticated then ''unauthenticated''
      else ''code_'' @ decimal (unat c))"

text \<open>
  A non-nil Go \<^verbatim>\<open>error\<close>: a plain error with a message (\<^verbatim>\<open>fmt.Errorf\<close> without
  \<^verbatim>\<open>%w\<close>, \<^verbatim>\<open>errors.New\<close>); a \<^verbatim>\<open>*connect.Error\<close> with its code and the error it was
  made from; an error value that holds a nil \<^verbatim>\<open>*connect.Error\<close> (the interface is not
  nil, the pointer in it is); or an error that wraps another one. The nil error is
  \<^const>\<open>None\<close> of the option type over these.
\<close>

datatype go_error =
    Errorf string
  | ConnectError Code go_error
  | NilConnectError
  | Wrapped string go_error

definition NewError :: "Code \<Rightarrow> go_error \<Rightarrow> go_error" where
  "NewError c underlying = ConnectError c underlying"

text \<open>
  \<^verbatim>\<open>errors.As(err, &connectErr)\<close>, as \<^verbatim>\<open>connect.CodeOf\<close> uses it: the first
  \<^verbatim>\<open>*connect.Error\<close> on the chain of wrapped errors. \<^const>\<open>None\<close> when there is none;
  otherwise the pointer found, which is nil (\<^const>\<open>None\<close>) or points to an error with a
  code.
\<close>

fun asError :: "go_error \<Rightarrow> Code option option" where
  "asError (Errorf m) = None"
| "asError (ConnectError c underlying) = Some (Some c)"
| "asError NilConnectError = Some None"
| "asError (Wrapped m e) = asError e"

text \<open>
  \<^verbatim>\<open>func (e *Error) Code() Code { return e.code }\<close>: reading the field through a nil
  pointer panics.
\<close>

definition Error_Code :: "Code option \<Rightarrow> panic + Code" where
  "Error_Code e = (case e of None \<Rightarrow> Inl NilPointerDereference | Some c \<Rightarrow> Inr c)"

text \<open>
  Modelled from the spec: \<^verbatim>\<open>connect.CodeOf\<close>, which \<^verbatim>\<open>code\<close> calls, is part of
  connect-go and not under \<^verbatim>\<open>src/\<close>. It is the code of the first \<^verbatim>\<open>*connect.Error\<close>
  on the chain of wrapped errors, and \<^verbatim>\<open>CodeUnknown\<close> for a failure that carries none.
\<close>

definition CodeOf :: "go_error \<Rightarrow> panic + Code" where
  "CodeOf err =
     (case asError err of
        Some connectErr \<Rightarrow> Error_Code connectErr
      | None \<Rightarrow> Inr CodeUnknown)"

text \<open>\<^verbatim>\<open>type StreamType uint8\<close>: two bits, client streaming and server streaming.\<close>

type_synonym StreamType = "8 word"

definition StreamTypeUnary :: StreamType where "StreamTypeUnary = 0"
definition StreamTypeClient :: StreamType where "StreamTypeClient = 1"
definition StreamTypeServer :: StreamType where "StreamTypeServer = 2"
definition StreamTypeBidi :: StreamType where "StreamTypeBidi = or StreamTypeClient StreamTypeServer"

text \<open>
  \<^verbatim>\<open>connect.Spec\<close> and the part of \<^verbatim>\<open>connect.AnyRequest\<close> the interceptor reads:
  \<^verbatim>\<open>req.Spec()\<close>. The message a request carries is of any type.
\<close>

record Spec =
  StreamType :: StreamType
  Procedure :: string
  IsClient :: bool

record 'm AnyRequest =
  Spec :: Spec
  Any :: 'm

text \<open>
  \<^verbatim>\<open>connect.UnaryFunc\<close>, \<^verbatim>\<open>func(context.Context, AnyRequest) (AnyResponse, error)\<close>:
  a function of the context and the request that may read and change the state of the
  program, \<open>'s\<close>, and returns a response (\<^const>\<open>None\<close> is Go's nil) and an error
  (\<^const>\<open>None\<close> is nil). This is the type of a delegate, which is taken to return.
\<close>

type_synonym ('c, 'm, 'r, 's) UnaryFunc =
  "'c \<Rightarrow> 'm AnyRequest \<Rightarrow> 's \<Rightarrow> ('r option \<times> go_error option) \<times> 's"

text \<open>
  The function \<^verbatim>\<open>WrapUnary\<close> returns has the same Go type, but a call of it can end in
  a panic of its own: it then returns nothing (\<^const>\<open>Inl\<close> of the panic), and the
  state is what it was when the panic was raised.
\<close>

type_synonym ('c, 'm, 'r, 's) WrappedUnaryFunc =
  "'c \<Rightarrow> 'm AnyRequest \<Rightarrow> 's \<Rightarrow> (panic + ('r option \<times> go_error option)) \<times> 's"

subsection \<open>Prometheus client: vectors, registration, time\<close>

text \<open>
  \<^verbatim>\<open>validateLabelValues(vals, expectedNumberOfValues)\<close> of the client library: the
  number of values is the number of label names of the vector, and every value is valid
  UTF-8; the first value that is not is reported.
\<close>

definition validateLabelValues :: "string list \<Rightarrow> nat \<Rightarrow> panic option" where
  "validateLabelValues vals expectedNumberOfValues =
     (if length vals \<noteq> expectedNumberOfValues then Some InconsistentCardinality
      else (case filter (\<lambda>val. \<not> ValidString val) vals of
              [] \<Rightarrow> None
            | val # _ \<Rightarrow> Some (InvalidLabelValue val)))"

text \<open>
  \<^verbatim>\<open>v.WithLabelValues(lvs...)\<close> on a vector made with four label names, as all vectors
  of the interceptor are: it panics when the label values are refused, and otherwise
  gives the counter or histogram of \<open>lvs\<close>, which the model names by \<open>lvs\<close> itself.
\<close>

definition WithLabelValues :: "string list \<Rightarrow> panic + string list" where
  "WithLabelValues lvs =
     (case validateLabelValues lvs 4 of Some p \<Rightarrow> Inl p | None \<Rightarrow> Inr lvs)"

text \<open>
  A \<^verbatim>\<open>CounterVec\<close> holds one counter for each tuple of label values it has been asked
  for; a counter counts in a \<^verbatim>\<open>uint64\<close>. \<^verbatim>\<open>Inc()\<close> on the counter that
  \<^const>\<open>WithLabelValues\<close> gave adds one to it; a counter the vector did not hold yet
  starts at zero.
\<close>

type_synonym CounterVec = "string list \<rightharpoonup> 64 word"

definition Inc :: "CounterVec \<Rightarrow> string list \<Rightarrow> CounterVec" where
  "Inc v lvs = v(lvs \<mapsto> (case v lvs of None \<Rightarrow> 1 | Some n \<Rightarrow> n + 1))"

text \<open>
  A \<^verbatim>\<open>HistogramVec\<close> holds one histogram for each tuple of label values; a histogram is
  modelled by the values observed so far, in order. \<^verbatim>\<open>Observe(x)\<close> on the histogram
  that \<^const>\<open>WithLabelValues\<close> gave adds \<open>x\<close> to it.
\<close>

type_synonym HistogramVec = "string list \<rightharpoonup> rat list"

definition Observe :: "HistogramVec \<Rightarrow> string list \<Rightarrow> rat \<Rightarrow> HistogramVec" where
  "Observe v lvs x = v(lvs \<mapsto> (case v lvs of None \<Rightarrow> [x] | Some xs \<Rightarrow> xs @ [x]))"

text \<open>
  What a registry knows of a registered vector: the options and the label names it was
  made with. \<^verbatim>\<open>NativeHistogramBucketFactor\<close> is a \<^verbatim>\<open>float64\<close>; the model keeps the
  number the source writes, as a rational. \<^verbatim>\<open>NativeHistogramMaxBucketNumber\<close> is a
  \<^verbatim>\<open>uint32\<close>.
\<close>

datatype Collector =
    NewCounterVec (Name: string) (Help: string) (labelNames: "string list")
  | NewHistogramVec (Name: string) (Help: string)
      (NativeHistogramBucketFactor: rat) (NativeHistogramMaxBucketNumber: "32 word")
      (labelNames: "string list")

text \<open>
  \<^verbatim>\<open>promauto.With(reg)\<close> registers each vector it makes with \<^verbatim>\<open>reg.MustRegister\<close>, which
  panics when a vector of that name is registered already. With a nil registerer
  (\<^const>\<open>None\<close>) nothing is registered. A registry is the list of what has been
  registered with it, in order.
\<close>

type_synonym Registerer = "Collector list option"

definition MustRegister :: "Registerer \<Rightarrow> Collector \<Rightarrow> panic + Registerer" where
  "MustRegister reg c =
     (case reg of
        None \<Rightarrow> Inr None
      | Some cs \<Rightarrow>
          if Name c \<in> set (map Name cs) then Inl (AlreadyRegisteredError (Name c))
          else Inr (Some (cs @ [c])))"

text \<open>
  \<^verbatim>\<open>time.Duration\<close> is an \<^verbatim>\<open>int64\<close> of nanoseconds. \<^verbatim>\<open>time.Since(start)\<close> is the
  difference of two readings of the clock, kept within the range of \<^verbatim>\<open>int64\<close>;
  \<^verbatim>\<open>Seconds()\<close> divides by \<open>10\<^sup>9\<close> (the rounding to \<^verbatim>\<open>float64\<close> is not modelled).
\<close>

definition Since :: "int \<Rightarrow> int \<Rightarrow> int" where
  "Since now start = max (- (2 ^ 63)) (min (2 ^ 63 - 1) (now - start))"

definition Seconds :: "int \<Rightarrow> rat" where
  "Seconds d = of_int d / 1000000000"

text \<open>
  The state of the program: the vectors the interceptor points to, the clock that
  \<^verbatim>\<open>time.Now()\<close> reads, and everything else (\<open>'w\<close>), which only delegates touch. A
  delegate may change all three.
\<close>

record ('i, 'w) heap =
  instruments :: 'i
  clock :: int
  world :: 'w

section \<open>interceptor.go: the two label functions\<close>

text \<open>
  \<^verbatim>\<open>func code(err error) string\<close>, the same in both versions of the file. It returns
  no string when \<^verbatim>\<open>connect.CodeOf\<close> panics.
\<close>

definition code :: "go_error option \<Rightarrow> panic + string" where
  "code err =
     (case err of
        None \<Rightarrow> Inr ''ok''
      | Some e \<Rightarrow> (case CodeOf e of Inl p \<Rightarrow> Inl p | Inr c \<Rightarrow> Inr (Code_String c)))"

text \<open>\<^verbatim>\<open>func streamType(t connect.StreamType) string\<close>, the same in both versions.\<close>

definition streamType :: "StreamType \<Rightarrow> string" where
  "streamType t =
     (if t = StreamTypeUnary then ''unary''
      else if t = StreamTypeClient then ''client_stream''
      else if t = StreamTypeServer then ''server_stream''
      else if t = StreamTypeBidi then ''bidi_stream''
      else '''')"

section \<open>interceptor.go, the version with histograms\<close>

record Interceptor =
  clientRequests :: CounterVec
  clientDuration :: HistogramVec
  serverRequests :: CounterVec
  serverDuration :: HistogramVec

definition labelNames_lit :: "string list" where
  "labelNames_lit = [''code'', ''method'', ''service'', ''type'']"

text \<open>
  \<^verbatim>\<open>NewInterceptor\<close>: four vectors, each made and registered in the order of the source;
  a panic of a registration ends the constructor.
\<close>

definition NewInterceptor :: "Registerer \<Rightarrow> panic + (Interceptor \<times> Registerer)" where
  "NewInterceptor reg =
     (case MustRegister reg (NewCounterVec ''connect_client_requests_total''
             ''Tracks the number of connect client requests by code, method, service and type.''
             labelNames_lit) of
        Inl p \<Rightarrow> Inl p
      | Inr reg1 \<Rightarrow>
     (case MustRegister reg1 (NewHistogramVec ''connect_client_requests_duration_seconds''
             ''Tracks the latencies of connect client requests by code, method, service and type.''
             (11 / 10) 100 labelNames_lit) of
        Inl p \<Rightarrow> Inl p
      | Inr reg2 \<Rightarrow>
     (case MustRegister reg2 (NewCounterVec ''connect_server_requests_total''
             ''Tracks the number of connect server requests by code, method, service and type.''
             labelNames_lit) of
        Inl p \<Rightarrow> Inl p
      | Inr reg3 \<Rightarrow>
     (case MustRegister reg3 (NewHistogramVec ''connect_server_requests_duration_seconds''
             ''Tracks the latencies of connect server requests by code, method, service and type.''
             (11 / 10) 100 labelNames_lit) of
        Inl p \<Rightarrow> Inl p
      | Inr reg4 \<Rightarrow>
          Inr (\<lparr>clientRequests = Map.empty, clientDuration = Map.empty,
                serverRequests = Map.empty, serverDuration = Map.empty\<rparr>, reg4)))))"

text \<open>
  The error both versions of \<^verbatim>\<open>WrapUnary\<close> return for a procedure that does not split
  into three: \<^verbatim>\<open>connect.NewError(connect.CodeInternal, fmt.Errorf("...: %s", spec.Procedure))\<close>.
\<close>

definition malformed :: "string \<Rightarrow> go_error" where
  "malformed procedure =
     NewError CodeInternal
       (Errorf (''procedure in prometheus interceptor malformed: '' @ procedure))"

text \<open>
  \<^verbatim>\<open>WrapUnary\<close>. The receiver \<^verbatim>\<open>i\<close> is the \<^const>\<open>instruments\<close> of the state. After the
  delegate has returned, each of the two statements of the chosen branch evaluates
  \<^verbatim>\<open>code(err)\<close>, asks the vector for the label values and updates what it gets; a panic
  of \<^verbatim>\<open>code\<close> or of \<^verbatim>\<open>WithLabelValues\<close> ends the call there, with the state reached.
\<close>

definition WrapUnary ::
  "('c, 'm, 'r, (Interceptor, 'w) heap) UnaryFunc \<Rightarrow>
   ('c, 'm, 'r, (Interceptor, 'w) heap) WrappedUnaryFunc"
where
  "WrapUnary next = (\<lambda>ctx req h.
     let spec = Spec req;
         procedure = Split (Procedure spec) CHR ''/''
     in if length procedure \<noteq> 3 then (Inr (None, Some (malformed (Procedure spec))), h)
        else
          let service = procedure ! 1; method = procedure ! 2;
              start = clock h;
              ((resp, err), h1) = next ctx req h;
              i = instruments h1
          in if IsClient spec then
               (case code err of Inl p \<Rightarrow> (Inl p, h1) | Inr c \<Rightarrow>
               (case WithLabelValues [c, method, service, streamType (StreamType spec)] of
                  Inl p \<Rightarrow> (Inl p, h1)
                | Inr counter \<Rightarrow>
               let i2 = i\<lparr>clientRequests := Inc (clientRequests i) counter\<rparr>;
                   h2 = h1\<lparr>instruments := i2\<rparr>
               in
               (case code err of Inl p \<Rightarrow> (Inl p, h2) | Inr c' \<Rightarrow>
               (case WithLabelValues [c', method, service, streamType (StreamType spec)] of
                  Inl p \<Rightarrow> (Inl p, h2)
                | Inr histogram \<Rightarrow>
                  (Inr (resp, err),
                   h2\<lparr>instruments := i2\<lparr>clientDuration :=
                     Observe (clientDuration i2) histogram
                       (Seconds (Since (clock h2) start))\<rparr>\<rparr>)))))
             else
               (case code err of Inl p \<Rightarrow> (Inl p, h1) | Inr c \<Rightarrow>
               (case WithLabelValues [c, method, service, streamType (StreamType spec)] of
                  Inl p \<Rightarrow> (Inl p, h1)
                | Inr counter \<Rightarrow>
               let i2 = i\<lparr>serverRequests := Inc (serverRequests i) counter\<rparr>;
                   h2 = h1\<lparr>instruments := i2\<rparr>
               in
               (case code err of Inl p \<Rightarrow> (Inl p, h2) | Inr c' \<Rightarrow>
               (case WithLabelValues [c', method, service, streamType (StreamType spec)] of
                  Inl p \<Rightarrow> (Inl p, h2)
                | Inr histogram \<Rightarrow>
                  (Inr (resp, err),
                   h2\<lparr>instruments := i2\<lparr>serverDuration :=
                     Observe (serverDuration i2) histogram
                       (Seconds (Since (clock h2) start))\<rparr>\<rparr>))))))"

definition WrapStreamingClient :: "'f \<Rightarrow> 'f" where
  "WrapStreamingClient handle = handle"

definition WrapStreamingHandler :: "'f \<Rightarrow> 'f" where
  "WrapStreamingHandler handle = handle"

section \<open>interceptor.go, the version with counters only\<close>

record Interceptor_c =
  clientRequests_c :: CounterVec
  serverRequests_c :: CounterVec

definition NewInterceptor_c :: "Registerer \<Rightarrow> panic + (Interceptor_c \<times> Registerer)" where
  "NewInterceptor_c reg =
     (let labelCode = ''code'';
          labelMethod = ''method'';
          labelService = ''service'';
          labelType = ''type''
      in
     (case MustRegister reg (NewCounterVec ''connect_client_requests_total''
             ''Tracks the number of connect client requests by code, method, service and type.''
             [labelCode, labelMethod, labelService, labelType]) of
        Inl p \<Rightarrow> Inl p
      | Inr reg1 \<Rightarrow>
     (case MustRegister reg1 (NewCounterVec ''connect_server_requests_total''
             ''Tracks the number of connect server requests by code, method, service and type.''
             [labelCode, labelMethod, labelService, labelType]) of
        Inl p \<Rightarrow> Inl p
      | Inr reg2 \<Rightarrow>
          Inr (\<lparr>clientRequests_c = Map.empty, serverRequests_c = Map.empty\<rparr>, reg2))))"

definition WrapUnary_c ::
  "('c, 'm, 'r, (Interceptor_c, 'w) heap) UnaryFunc \<Rightarrow>
   ('c, 'm, 'r, (Interceptor_c, 'w) heap) WrappedUnaryFunc"
where
  "WrapUnary_c next = (\<lambda>ctx req h.
     let spec = Spec req;
         procedure = Split (Procedure spec) CHR ''/''
     in if length procedure \<noteq> 3 then (Inr (None, Some (malformed (Procedure spec))), h)
        else
          let service = procedure ! 1; method = procedure ! 2;
              ((resp, err), h1) = next ctx req h;
              i = instruments h1
          in if IsClient spec then
               (case code err of Inl p \<Rightarrow> (Inl p, h1) | Inr c \<Rightarrow>
               (case WithLabelValues [c, method, service, streamType (StreamType spec)] of
                  Inl p \<Rightarrow> (Inl p, h1)
                | Inr counter \<Rightarrow>
                  (Inr (resp, err),
                   h1\<lparr>instruments := i\<lparr>clientRequests_c := Inc (clientRequests_c i) counter\<rparr>\<rparr>)))
             else
               (case code err of Inl p \<Rightarrow> (Inl p, h1) | Inr c \<Rightarrow>
               (case WithLabelValues [c, method, service, streamType (StreamType spec)] of
                  Inl p \<Rightarrow> (Inl p, h1)
                | Inr counter \<Rightarrow>
                  (Inr (resp, err),
                   h1\<lparr>instruments := i\<lparr>serverRequests_c := Inc (serverRequests_c i) counter\<rparr>\<rparr>))))"

definition WrapStreamingClient_c :: "'f \<Rightarrow> 'f" where
  "WrapStreamingClient_c handle = handle"

definition WrapStreamingHandler_c :: "'f \<Rightarrow> 'f" where
  "WrapStreamingHandler_c handle = handle"

section \<open>Observing the calls of a delegate\<close>

text \<open>
  To say how often a wrapped function calls its delegate, the delegate is run on a state
  whose \<^const>\<open>world\<close> carries a log beside the delegate's own world: every call adds
  the context and the request it was given to the log, and the delegate itself, which
  knows nothing of the log, runs on the state without it. \<^const>\<open>WrapUnary\<close> and
  \<^const>\<open>WrapUnary_c\<close> take a delegate on any world, so they take this one.
\<close>

definition with_world :: "('i, 'v) heap \<Rightarrow> 'w \<Rightarrow> ('i, 'w) heap" where
  "with_world h w = \<lparr>instruments = instruments h, clock = clock h, world = w\<rparr>"

definition unlogged :: "('i, 'w \<times> 'l) heap \<Rightarrow> ('i, 'w) heap" where
  "unlogged h = with_world h (fst (world h))"

definition invocations :: "('i, 'w \<times> 'l) heap \<Rightarrow> 'l" where
  "invocations h = snd (world h)"

definition logged ::
  "('c, 'm, 'r, ('i, 'w) heap) UnaryFunc \<Rightarrow>
   ('c, 'm, 'r, ('i, 'w \<times> ('c \<times> 'm AnyRequest) list) heap) UnaryFunc"
where
  "logged next = (\<lambda>ctx req h.
     let (out, h1) = next ctx req (unlogged h)
     in (out, with_world h1 (world h1, invocations h @ [(ctx, req)])))"

section \<open>Concrete requests, delegates and states\<close>

definition request :: "string \<Rightarrow> bool \<Rightarrow> unit AnyRequest" where
  "request procedure is_client =
     \<lparr>Spec = \<lparr>StreamType = StreamTypeUnary, Procedure = procedure, IsClient = is_client\<rparr>,
      Any = ()\<rparr>"

text \<open>A delegate that answers after five nanoseconds, with the outcome it is given.\<close>

definition answer ::
  "go_error option \<Rightarrow> (unit, unit, unit, ('i, 'w) heap) UnaryFunc" where
  "answer err = (\<lambda>ctx req h. ((Some (), err), h\<lparr>clock := clock h + 5\<rparr>))"

definition fresh :: "(Interceptor, unit \<times> (unit \<times> unit AnyRequest) list) heap" where
  "fresh =
     \<lparr>instruments = \<lparr>clientRequests = Map.empty, clientDuration = Map.empty,
                      serverRequests = Map.empty, serverDuration = Map.empty\<rparr>,
      clock = 0, world = ((), [])\<rparr>"

definition fresh_c :: "(Interceptor_c, unit \<times> (unit \<times> unit AnyRequest) list) heap" where
  "fresh_c =
     \<lparr>instruments = \<lparr>clientRequests_c = Map.empty, serverRequests_c = Map.empty\<rparr>,
      clock = 0, world = ((), [])\<rparr>"

text \<open>What a constructor has left in the registry: nothing after a panic or with no registry.\<close>

definition registered :: "panic + ('i \<times> Registerer) \<Rightarrow> Collector list" where
  "registered r = (case r of Inr (i, Some cs) \<Rightarrow> cs | _ \<Rightarrow> [])"

text \<open>
  A procedure of three segments whose method is the one byte \<open>0xFF\<close>, which is not
  valid UTF-8.
\<close>

definition not_utf8 :: string where
  "not_utf8 = ''/svc/'' @ [CHR 0xFF]"

section \<open>Facts about the library functions\<close>

lemmas Code_defs =
  CodeCanceled_def CodeUnknown_def CodeInvalidArgument_def CodeDeadlineExceeded_def
  CodeNotFound_def CodeAlreadyExists_def CodePermissionDenied_def CodeResourceExhausted_def
  CodeFailedPrecondition_def CodeAborted_def CodeOutOfRange_def CodeUnimplemented_def
  CodeInternal_def CodeUnavailable_def CodeDataLoss_def CodeUnauthenticated_def

lemmas StreamType_defs =
  StreamTypeUnary_def StreamTypeClient_def StreamTypeServer_def StreamTypeBidi_def

lemma Split_no_sep: "sep \<notin> set s \<Longrightarrow> Split s sep = [s]"
proof -
  assume "sep \<notin> set s"
  then have d: "dropWhile (\<lambda>c. c \<noteq> sep) s = []" by auto
  show ?thesis by (subst Split.simps, subst d, simp)
qed

lemma Split_first: "sep \<notin> set a \<Longrightarrow> Split (a @ sep # rest) sep = a # Split rest sep"
proof -
  assume a: "sep \<notin> set a"
  then have d: "dropWhile (\<lambda>c. c \<noteq> sep) (a @ sep # rest) = sep # rest"
    by (induction a) auto
  from a have t: "takeWhile (\<lambda>c. c \<noteq> sep) (a @ sep # rest) = a"
    by (induction a) auto
  show ?thesis
    by (subst Split.simps, subst d, subst t, simp)
qed

lemma length_Split: "length (Split s sep) = Suc (count_list s sep)"
proof (induction s sep rule: Split.induct)
  case (1 s sep)
  show ?case
  proof (cases "dropWhile (\<lambda>c. c \<noteq> sep) s")
    case Nil
    then have "sep \<notin> set s" by auto
    then show ?thesis by (simp add: Split_no_sep)
  next
    case (Cons x rest)
    then have x: "x = sep" using hd_dropWhile[of "\<lambda>c. c \<noteq> sep" s] by auto
    have s: "s = takeWhile (\<lambda>c. c \<noteq> sep) s @ sep # rest"
      using takeWhile_dropWhile_id[of "\<lambda>c. c \<noteq> sep" s] Cons x by simp
    have n: "count_list (takeWhile (\<lambda>c. c \<noteq> sep) s) sep = 0"
      by (simp add: count_list_0_iff) (metis (mono_tags) set_takeWhileD)
    have "count_list s sep = Suc (count_list rest sep)"
      by (subst s) (simp add: n)
    moreover have "Split s sep = takeWhile (\<lambda>c. c \<noteq> sep) s # Split rest sep"
      by (subst Split.simps, subst Cons, simp)
    ultimately show ?thesis using "1.IH"[OF Cons] by simp
  qed
qed

lemma Split_form:
  "CHR ''/'' \<notin> set service \<Longrightarrow> CHR ''/'' \<notin> set method \<Longrightarrow>
   Split (''/'' @ service @ ''/'' @ method) CHR ''/'' = ['''', service, method]"
  using Split_first[of "CHR ''/''" "[]"] Split_first[of "CHR ''/''" "service" "method"]
  by (simp add: Split_no_sep)

lemma Code_String_not_Nil: "Code_String c \<noteq> []"
  by (simp add: Code_String_def)

lemma Inc_same: "Inc v lvs lvs = Some (case v lvs of None \<Rightarrow> 1 | Some n \<Rightarrow> n + 1)"
  by (simp add: Inc_def)

lemma Inc_other: "k \<noteq> lvs \<Longrightarrow> Inc v lvs k = v k"
  by (simp add: Inc_def)



lemma ValidString_ascii: "list_all (\<lambda>c. of_char c < (128::nat)) s \<Longrightarrow> ValidString s"
  by (induction s) (simp_all add: byte_in_def)

lemma digit_ascii: "k < 10 \<Longrightarrow> of_char (''0123456789'' ! k) < (128::nat)"
proof -
  assume "k < 10"
  then have "k \<in> {0, 1, 2, 3, 4, 5, 6, 7, 8, 9}" by auto
  then show ?thesis by auto
qed

lemma decimal_ascii: "list_all (\<lambda>c. of_char c < (128::nat)) (decimal n)"
proof (induction n rule: decimal.induct)
  case (1 n)
  show ?case
  proof (cases "n < 10")
    case True
    then show ?thesis by (subst decimal.simps) (simp add: digit_ascii)
  next
    case False
    then have "list_all (\<lambda>c. of_char c < (128::nat)) (decimal (n div 10))"
      using "1.IH" by simp
    moreover have "of_char (''0123456789'' ! (n mod 10)) < (128::nat)"
      by (rule digit_ascii) simp
    ultimately show ?thesis using False by (subst decimal.simps) simp
  qed
qed

lemma Code_String_ascii: "list_all (\<lambda>c. of_char c < (128::nat)) (Code_String c)"
  by (simp add: Code_String_def decimal_ascii)

lemma ValidString_Code_String: "ValidString (Code_String c)"
  by (rule ValidString_ascii) (rule Code_String_ascii)

lemma ValidString_streamType: "ValidString (streamType t)"
  by (simp add: streamType_def byte_in_def)

lemma ValidString_code: "code err = Inr c \<Longrightarrow> ValidString c"
  by (auto simp: code_def ValidString_Code_String byte_in_def split: option.splits sum.splits)

lemma WithLabelValues_labels:
  assumes "code err = Inr c"
  shows "WithLabelValues [c, mt, sv, streamType t] =
    (if \<not> ValidString mt then Inl (InvalidLabelValue mt)
     else if \<not> ValidString sv then Inl (InvalidLabelValue sv)
     else Inr [c, mt, sv, streamType t])"
  using ValidString_code [OF assms]
  by (simp add: WithLabelValues_def validateLabelValues_def ValidString_streamType)

section \<open>Facts about the wrapped unary function\<close>

lemma WrapUnary_malformed:
  "length (Split (Procedure (Spec req)) CHR ''/'') \<noteq> 3 \<Longrightarrow>
   WrapUnary next ctx req h = (Inr (None, Some (malformed (Procedure (Spec req)))), h)"
  by (simp add: WrapUnary_def Let_def)

lemma WrapUnary_c_malformed:
  "length (Split (Procedure (Spec req)) CHR ''/'') \<noteq> 3 \<Longrightarrow>
   WrapUnary_c next ctx req h = (Inr (None, Some (malformed (Procedure (Spec req)))), h)"
  by (simp add: WrapUnary_c_def Let_def)

lemma WrapUnary_three:
  assumes "Split (Procedure (Spec req)) CHR ''/'' = [x, sv, mt]"
    and "next ctx req h = ((resp, err), h1)"
  shows "WrapUnary next ctx req h =
    (case code err of
       Inl p \<Rightarrow> (Inl p, h1)
     | Inr c \<Rightarrow>
         if \<not> ValidString mt then (Inl (InvalidLabelValue mt), h1)
         else if \<not> ValidString sv then (Inl (InvalidLabelValue sv), h1)
         else
           (Inr (resp, err),
            h1\<lparr>instruments :=
              (if IsClient (Spec req) then
                 (instruments h1)
                   \<lparr>clientRequests :=
                      Inc (clientRequests (instruments h1))
                        [c, mt, sv, streamType (StreamType (Spec req))],
                    clientDuration :=
                      Observe (clientDuration (instruments h1))
                        [c, mt, sv, streamType (StreamType (Spec req))]
                        (Seconds (Since (clock h1) (clock h)))\<rparr>
               else
                 (instruments h1)
                   \<lparr>serverRequests :=
                      Inc (serverRequests (instruments h1))
                        [c, mt, sv, streamType (StreamType (Spec req))],
                    serverDuration :=
                      Observe (serverDuration (instruments h1))
                        [c, mt, sv, streamType (StreamType (Spec req))]
                        (Seconds (Since (clock h1) (clock h)))\<rparr>)\<rparr>))"
proof (cases "code err")
  case (Inl p)
  then show ?thesis using assms by (simp add: WrapUnary_def Let_def)
next
  case (Inr c)
  show ?thesis
    using assms Inr
    by (simp add: WrapUnary_def Let_def WithLabelValues_labels [OF Inr])
qed

lemma WrapUnary_c_three:
  assumes "Split (Procedure (Spec req)) CHR ''/'' = [x, sv, mt]"
    and "next ctx req h = ((resp, err), h1)"
  shows "WrapUnary_c next ctx req h =
    (case code err of
       Inl p \<Rightarrow> (Inl p, h1)
     | Inr c \<Rightarrow>
         if \<not> ValidString mt then (Inl (InvalidLabelValue mt), h1)
         else if \<not> ValidString sv then (Inl (InvalidLabelValue sv), h1)
         else
           (Inr (resp, err),
            h1\<lparr>instruments :=
              (if IsClient (Spec req) then
                 (instruments h1)
                   \<lparr>clientRequests_c :=
                      Inc (clientRequests_c (instruments h1))
                        [c, mt, sv, streamType (StreamType (Spec req))]\<rparr>
               else
                 (instruments h1)
                   \<lparr>serverRequests_c :=
                      Inc (serverRequests_c (instruments h1))
                        [c, mt, sv, streamType (StreamType (Spec req))]\<rparr>)\<rparr>))"
proof (cases "code err")
  case (Inl p)
  then show ?thesis using assms by (simp add: WrapUnary_c_def Let_def)
next
  case (Inr c)
  show ?thesis
    using assms Inr
    by (simp add: WrapUnary_c_def Let_def WithLabelValues_labels [OF Inr])
qed


lemma logged_fst: "fst (logged next ctx req h) = fst (next ctx req (unlogged h))"
  by (simp add: logged_def split_beta)

lemma logged_world:
  "snd (world (snd (logged next ctx req h))) = invocations h @ [(ctx, req)]"
  by (simp add: logged_def split_beta with_world_def)

lemma unlogged_logged: "unlogged (snd (logged next ctx req h)) = snd (next ctx req (unlogged h))"
  by (simp add: logged_def split_beta unlogged_def with_world_def)

lemma invocations_instruments_update [simp]:
  "invocations (h\<lparr>instruments := i\<rparr>) = invocations h"
  by (simp add: invocations_def)

lemma WrapUnary_world:
  assumes "Split (Procedure (Spec req)) CHR ''/'' = [x, sv, mt]"
  shows "world (snd (WrapUnary next ctx req h)) = world (snd (next ctx req h))"
proof -
  obtain resp err h1 where n: "next ctx req h = ((resp, err), h1)"
    by (metis surj_pair)
  show ?thesis
    unfolding WrapUnary_three [of req x sv mt "next" ctx h resp err h1, OF assms n]
    by (simp add: n split: sum.splits)
qed

lemma WrapUnary_c_world:
  assumes "Split (Procedure (Spec req)) CHR ''/'' = [x, sv, mt]"
  shows "world (snd (WrapUnary_c next ctx req h)) = world (snd (next ctx req h))"
proof -
  obtain resp err h1 where n: "next ctx req h = ((resp, err), h1)"
    by (metis surj_pair)
  show ?thesis
    unfolding WrapUnary_c_three [of req x sv mt "next" ctx h resp err h1, OF assms n]
    by (simp add: n split: sum.splits)
qed

lemma WrapUnary_returns:
  assumes "Split (Procedure (Spec req)) CHR ''/'' = [x, sv, mt]"
    and "ValidString sv" and "ValidString mt"
    and "\<not> isl (code (snd (fst (next ctx req h))))"
  shows "fst (WrapUnary next ctx req h) = Inr (fst (next ctx req h))"
proof -
  obtain resp err h1 where n: "next ctx req h = ((resp, err), h1)"
    by (metis surj_pair)
  show ?thesis
    unfolding WrapUnary_three [of req x sv mt "next" ctx h resp err h1, OF assms(1) n]
    using assms(2-4) by (auto simp: n split: sum.splits)
qed

lemma WrapUnary_c_returns:
  assumes "Split (Procedure (Spec req)) CHR ''/'' = [x, sv, mt]"
    and "ValidString sv" and "ValidString mt"
    and "\<not> isl (code (snd (fst (next ctx req h))))"
  shows "fst (WrapUnary_c next ctx req h) = Inr (fst (next ctx req h))"
proof -
  obtain resp err h1 where n: "next ctx req h = ((resp, err), h1)"
    by (metis surj_pair)
  show ?thesis
    unfolding WrapUnary_c_three [of req x sv mt "next" ctx h resp err h1, OF assms(1) n]
    using assms(2-4) by (auto simp: n split: sum.splits)
qed

lemma WrapUnary_panics:
  assumes "Split (Procedure (Spec req)) CHR ''/'' = [x, sv, mt]"
    and "\<not> (ValidString sv \<and> ValidString mt \<and> \<not> isl (code (snd (fst (next ctx req h)))))"
  shows "isl (fst (WrapUnary next ctx req h))
     \<and> snd (WrapUnary next ctx req h) = snd (next ctx req h)"
proof -
  obtain resp err h1 where n: "next ctx req h = ((resp, err), h1)"
    by (metis surj_pair)
  show ?thesis
    unfolding WrapUnary_three [of req x sv mt "next" ctx h resp err h1, OF assms(1) n]
    using assms(2) by (auto simp: n split: sum.splits)
qed

lemma WrapUnary_c_panics:
  assumes "Split (Procedure (Spec req)) CHR ''/'' = [x, sv, mt]"
    and "\<not> (ValidString sv \<and> ValidString mt \<and> \<not> isl (code (snd (fst (next ctx req h)))))"
  shows "isl (fst (WrapUnary_c next ctx req h))
     \<and> snd (WrapUnary_c next ctx req h) = snd (next ctx req h)"
proof -
  obtain resp err h1 where n: "next ctx req h = ((resp, err), h1)"
    by (metis surj_pair)
  show ?thesis
    unfolding WrapUnary_c_three [of req x sv mt "next" ctx h resp err h1, OF assms(1) n]
    using assms(2) by (auto simp: n split: sum.splits)
qed

lemma Split_svc_m: "Split ''/svc/m'' CHR ''/'' = ['''', ''svc'', ''m'']"
  by (simp add: Split.simps)

lemma Split_bad: "Split ''bad'' CHR ''/'' = [''bad'']"
  by (simp add: Split.simps)

lemma Split_abcd: "Split ''/a/b/c/d'' CHR ''/'' = ['''', ''a'', ''b'', ''c'', ''d'']"
  by (simp add: Split.simps)

lemma Split_only_one: "Split ''/only/one'' CHR ''/'' = ['''', ''only'', ''one'']"
  by (simp add: Split.simps)

lemma Split_empty_service: "Split ''//m'' CHR ''/'' = ['''', '''', ''m'']"
  by (simp add: Split.simps)

lemma Split_empty_method: "Split ''/s/'' CHR ''/'' = ['''', ''s'', '''']"
  by (simp add: Split.simps)

lemma Split_no_leading: "Split ''a/b/c'' CHR ''/'' = [''a'', ''b'', ''c'']"
  by (simp add: Split.simps)

lemma Split_only: "Split ''/only'' CHR ''/'' = ['''', ''only'']"
  by (simp add: Split.simps)

lemma Split_not_utf8: "Split not_utf8 CHR ''/'' = ['''', ''svc'', [CHR 0xFF]]"
  by (simp add: not_utf8_def Split.simps)

lemma not_ValidString_FF: "\<not> ValidString [CHR 0xFF]"
  by (simp add: byte_in_def)

lemma WrapUnary_logged_answer:
  assumes "Split p CHR ''/'' = [x, sv, mt]"
    and "ValidString sv" and "ValidString mt" and "code err = Inr c"
  shows "WrapUnary (logged (answer err)) () (request p cl) fresh =
    (Inr (Some (), err),
     \<lparr>instruments =
        (if cl then
           \<lparr>clientRequests = [[c, mt, sv, ''unary''] \<mapsto> 1],
            clientDuration = [[c, mt, sv, ''unary''] \<mapsto> [5 / 1000000000]],
            serverRequests = Map.empty, serverDuration = Map.empty\<rparr>
         else
           \<lparr>clientRequests = Map.empty, clientDuration = Map.empty,
            serverRequests = [[c, mt, sv, ''unary''] \<mapsto> 1],
            serverDuration = [[c, mt, sv, ''unary''] \<mapsto> [5 / 1000000000]]\<rparr>),
      clock = 5, world = ((), [((), request p cl)])\<rparr>)"
proof -
  have s: "Split (Procedure (Spec (request p cl))) CHR ''/'' = [x, sv, mt]"
    using assms(1) by (simp add: request_def)
  have n: "logged (answer err) () (request p cl) fresh =
      ((Some (), err), \<lparr>instruments = instruments fresh, clock = 5,
                         world = ((), [((), request p cl)])\<rparr>)"
    by (simp add: logged_def answer_def fresh_def unlogged_def with_world_def invocations_def)
  show ?thesis
    unfolding WrapUnary_three [of "request p cl" x sv mt "logged (answer err)" "()" fresh, OF s n]
    using assms(2-4)
    by (simp add: request_def fresh_def Inc_def Observe_def Since_def Seconds_def streamType_def)
qed

lemma WrapUnary_c_logged_answer:
  assumes "Split p CHR ''/'' = [x, sv, mt]"
    and "ValidString sv" and "ValidString mt" and "code err = Inr c"
  shows "WrapUnary_c (logged (answer err)) () (request p cl) fresh_c =
    (Inr (Some (), err),
     \<lparr>instruments =
        (if cl then
           \<lparr>clientRequests_c = [[c, mt, sv, ''unary''] \<mapsto> 1],
            serverRequests_c = Map.empty\<rparr>
         else
           \<lparr>clientRequests_c = Map.empty,
            serverRequests_c = [[c, mt, sv, ''unary''] \<mapsto> 1]\<rparr>),
      clock = 5, world = ((), [((), request p cl)])\<rparr>)"
proof -
  have s: "Split (Procedure (Spec (request p cl))) CHR ''/'' = [x, sv, mt]"
    using assms(1) by (simp add: request_def)
  have n: "logged (answer err) () (request p cl) fresh_c =
      ((Some (), err), \<lparr>instruments = instruments fresh_c, clock = 5,
                         world = ((), [((), request p cl)])\<rparr>)"
    by (simp add: logged_def answer_def fresh_c_def unlogged_def with_world_def invocations_def)
  show ?thesis
    unfolding WrapUnary_c_three [of "request p cl" x sv mt "logged (answer err)" "()" fresh_c, OF s n]
    using assms(2-4)
    by (simp add: request_def fresh_c_def Inc_def streamType_def)
qed

lemma length_Split_3: "length (Split p sep) = 3 \<longleftrightarrow> count_list p sep = 2"
  by (simp add: length_Split)

lemma WrapUnary_logged_answer_refused:
  assumes "Split p CHR ''/'' = [x, sv, mt]"
    and "code err = Inr c" and "\<not> ValidString mt"
  shows "WrapUnary (logged (answer err)) () (request p cl) fresh =
    (Inl (InvalidLabelValue mt),
     \<lparr>instruments = instruments fresh, clock = 5, world = ((), [((), request p cl)])\<rparr>)"
proof -
  have s: "Split (Procedure (Spec (request p cl))) CHR ''/'' = [x, sv, mt]"
    using assms(1) by (simp add: request_def)
  have n: "logged (answer err) () (request p cl) fresh =
      ((Some (), err), \<lparr>instruments = instruments fresh, clock = 5,
                         world = ((), [((), request p cl)])\<rparr>)"
    by (simp add: logged_def answer_def fresh_def unlogged_def with_world_def invocations_def)
  show ?thesis
    unfolding WrapUnary_three [of "request p cl" x sv mt "logged (answer err)" "()" fresh, OF s n]
    using assms(2,3) by simp
qed

lemma WrapUnary_c_logged_answer_refused:
  assumes "Split p CHR ''/'' = [x, sv, mt]"
    and "code err = Inr c" and "\<not> ValidString mt"
  shows "WrapUnary_c (logged (answer err)) () (request p cl) fresh_c =
    (Inl (InvalidLabelValue mt),
     \<lparr>instruments = instruments fresh_c, clock = 5, world = ((), [((), request p cl)])\<rparr>)"
proof -
  have s: "Split (Procedure (Spec (request p cl))) CHR ''/'' = [x, sv, mt]"
    using assms(1) by (simp add: request_def)
  have n: "logged (answer err) () (request p cl) fresh_c =
      ((Some (), err), \<lparr>instruments = instruments fresh_c, clock = 5,
                         world = ((), [((), request p cl)])\<rparr>)"
    by (simp add: logged_def answer_def fresh_c_def unlogged_def with_world_def invocations_def)
  show ?thesis
    unfolding WrapUnary_c_three [of "request p cl" x sv mt "logged (answer err)" "()" fresh_c, OF s n]
    using assms(2,3) by simp
qed

lemma WrapUnary_logged_answer_nil:
  assumes "Split p CHR ''/'' = [x, sv, mt]" and "code err = Inl q"
  shows "WrapUnary (logged (answer err)) () (request p cl) fresh =
    (Inl q,
     \<lparr>instruments = instruments fresh, clock = 5, world = ((), [((), request p cl)])\<rparr>)"
proof -
  have s: "Split (Procedure (Spec (request p cl))) CHR ''/'' = [x, sv, mt]"
    using assms(1) by (simp add: request_def)
  have n: "logged (answer err) () (request p cl) fresh =
      ((Some (), err), \<lparr>instruments = instruments fresh, clock = 5,
                         world = ((), [((), request p cl)])\<rparr>)"
    by (simp add: logged_def answer_def fresh_def unlogged_def with_world_def invocations_def)
  show ?thesis
    unfolding WrapUnary_three [of "request p cl" x sv mt "logged (answer err)" "()" fresh, OF s n]
    using assms(2) by simp
qed

lemma code_None: "code None = Inr ''ok''"
  by (simp add: code_def)

lemma code_NilConnectError: "code (Some NilConnectError) = Inl NilPointerDereference"
  by (simp add: code_def CodeOf_def Error_Code_def)

lemma ValidString_svc: "ValidString ''svc''"
  by (simp add: byte_in_def)

lemma ValidString_m: "ValidString ''m''"
  by (simp add: byte_in_def)

section \<open>The claims\<close>

text \<open>
  C1, as amended. For every procedure of the form \<open>/service/method\<close> whose service and
  method are valid UTF-8, and every delegate that succeeds, the wrapped unary function
  returns the delegate's outcome and, on the state the delegate left, adds one to the
  counter of the call's direction (the client counter when \<open>IsClient\<close>, the server counter
  otherwise) at the labels \<open>ok\<close>, method, service, type, once. The version with
  histograms also adds one observation, the seconds the delegate took, to the duration
  histogram of the same direction at the same labels. Nothing else changes: not the
  instruments of the other direction, and in the version with counters only no other
  instrument at all.
\<close>

theorem successful_unary_recorded_once:
  assumes "Procedure (Spec req) = ''/'' @ service @ ''/'' @ method"
    and "CHR ''/'' \<notin> set service" and "CHR ''/'' \<notin> set method"
    and "ValidString service" and "ValidString method"
    and "next ctx req h = ((resp, None), h1)"
    and "next_c ctx req g = ((resp_c, None), g1)"
  shows "WrapUnary next ctx req h =
    (Inr (resp, None),
     h1\<lparr>instruments :=
       (if IsClient (Spec req) then
          (instruments h1)
            \<lparr>clientRequests :=
               Inc (clientRequests (instruments h1))
                 [''ok'', method, service, streamType (StreamType (Spec req))],
             clientDuration :=
               Observe (clientDuration (instruments h1))
                 [''ok'', method, service, streamType (StreamType (Spec req))]
                 (Seconds (Since (clock h1) (clock h)))\<rparr>
        else
          (instruments h1)
            \<lparr>serverRequests :=
               Inc (serverRequests (instruments h1))
                 [''ok'', method, service, streamType (StreamType (Spec req))],
             serverDuration :=
               Observe (serverDuration (instruments h1))
                 [''ok'', method, service, streamType (StreamType (Spec req))]
                 (Seconds (Since (clock h1) (clock h)))\<rparr>)\<rparr>)
   \<and> WrapUnary_c next_c ctx req g =
    (Inr (resp_c, None),
     g1\<lparr>instruments :=
       (if IsClient (Spec req) then
          (instruments g1)
            \<lparr>clientRequests_c :=
               Inc (clientRequests_c (instruments g1))
                 [''ok'', method, service, streamType (StreamType (Spec req))]\<rparr>
        else
          (instruments g1)
            \<lparr>serverRequests_c :=
               Inc (serverRequests_c (instruments g1))
                 [''ok'', method, service, streamType (StreamType (Spec req))]\<rparr>)\<rparr>)"
proof -
  have s: "Split (Procedure (Spec req)) CHR ''/'' = ['''', service, method]"
    unfolding assms(1) by (rule Split_form [OF assms(2,3)])
  show ?thesis
    unfolding WrapUnary_three [of req "''''" "service" "method" "next" ctx h resp None h1,
        OF s assms(6)]
      WrapUnary_c_three [of req "''''" "service" "method" "next_c" ctx g resp_c None g1,
        OF s assms(7)]
    using assms(4,5) by (simp add: code_None)
qed

theorem successful_unary_recorded_once_witness:
  "Procedure (Spec (request ''/svc/m'' True)) = ''/'' @ ''svc'' @ ''/'' @ ''m''
   \<and> CHR ''/'' \<notin> set ''svc'' \<and> CHR ''/'' \<notin> set ''m''
   \<and> ValidString ''svc'' \<and> ValidString ''m''
   \<and> answer None () (request ''/svc/m'' True) fresh = ((Some (), None), fresh\<lparr>clock := 5\<rparr>)
   \<and> answer None () (request ''/svc/m'' True) fresh_c = ((Some (), None), fresh_c\<lparr>clock := 5\<rparr>)
   \<and> WrapUnary (answer None) () (request ''/svc/m'' True) fresh =
       (Inr (Some (), None),
        fresh\<lparr>clock := 5,
          instruments :=
            \<lparr>clientRequests = [[''ok'', ''m'', ''svc'', ''unary''] \<mapsto> 1],
             clientDuration = [[''ok'', ''m'', ''svc'', ''unary''] \<mapsto> [5 / 1000000000]],
             serverRequests = Map.empty, serverDuration = Map.empty\<rparr>\<rparr>)
   \<and> WrapUnary_c (answer None) () (request ''/svc/m'' True) fresh_c =
       (Inr (Some (), None),
        fresh_c\<lparr>clock := 5,
          instruments :=
            \<lparr>clientRequests_c = [[''ok'', ''m'', ''svc'', ''unary''] \<mapsto> 1],
             serverRequests_c = Map.empty\<rparr>\<rparr>)"
proof -
  have p: "Procedure (Spec (request ''/svc/m'' True)) = ''/'' @ ''svc'' @ ''/'' @ ''m''"
    by (simp add: request_def)
  have a: "CHR ''/'' \<notin> set ''svc''" and b: "CHR ''/'' \<notin> set ''m''" by simp_all
  have n: "answer None () (request ''/svc/m'' True) fresh = ((Some (), None), fresh\<lparr>clock := 5\<rparr>)"
    by (simp add: answer_def fresh_def)
  have n_c: "answer None () (request ''/svc/m'' True) fresh_c = ((Some (), None), fresh_c\<lparr>clock := 5\<rparr>)"
    by (simp add: answer_def fresh_c_def)
  note w = successful_unary_recorded_once [of "request ''/svc/m'' True" "''svc''" "''m''"
      "answer None" "()" fresh "Some ()" "fresh\<lparr>clock := 5\<rparr>"
      "answer None" fresh_c "Some ()" "fresh_c\<lparr>clock := 5\<rparr>",
      OF p a b ValidString_svc ValidString_m n n_c]
  have r: "IsClient (Spec (request ''/svc/m'' True))"
    "streamType (StreamType (Spec (request ''/svc/m'' True))) = ''unary''"
    by (simp_all add: request_def streamType_def)
  have 1: "WrapUnary (answer None) () (request ''/svc/m'' True) fresh =
       (Inr (Some (), None),
        fresh\<lparr>clock := 5,
          instruments :=
            \<lparr>clientRequests = [[''ok'', ''m'', ''svc'', ''unary''] \<mapsto> 1],
             clientDuration = [[''ok'', ''m'', ''svc'', ''unary''] \<mapsto> [5 / 1000000000]],
             serverRequests = Map.empty, serverDuration = Map.empty\<rparr>\<rparr>)"
    using w r by (simp add: fresh_def Inc_def Observe_def Since_def Seconds_def)
  have 2: "WrapUnary_c (answer None) () (request ''/svc/m'' True) fresh_c =
       (Inr (Some (), None),
        fresh_c\<lparr>clock := 5,
          instruments :=
            \<lparr>clientRequests_c = [[''ok'', ''m'', ''svc'', ''unary''] \<mapsto> 1],
             serverRequests_c = Map.empty\<rparr>\<rparr>)"
    using w r by (simp add: fresh_c_def Inc_def)
  from p a b ValidString_svc ValidString_m n n_c 1 2 show ?thesis by blast
qed

text \<open>
  C1 as stated lets no instrument but the counter change, for every procedure of the
  form \<open>/service/method\<close>. In the version with histograms a successful client call also
  changes the client duration histogram. And for the procedure \<open>/svc/\<close> followed by the
  byte \<open>0xFF\<close>, which has that form, the call of a succeeding delegate ends in the panic
  of \<^verbatim>\<open>WithLabelValues\<close>, and the counter is not incremented.
\<close>

theorem success_also_observes_duration:
  "clientDuration (instruments (snd (WrapUnary (logged (answer None)) () (request ''/svc/m'' True) fresh)))
     [''ok'', ''m'', ''svc'', ''unary''] = Some [5 / 1000000000]
   \<and> clientDuration (instruments fresh) [''ok'', ''m'', ''svc'', ''unary''] = None
   \<and> clientDuration (instruments (snd (WrapUnary (logged (answer None)) () (request ''/svc/m'' True) fresh)))
       \<noteq> clientDuration (instruments fresh)
   \<and> fst (WrapUnary (logged (answer None)) () (request not_utf8 True) fresh)
       = Inl (InvalidLabelValue [CHR 0xFF])
   \<and> clientRequests (instruments (snd (WrapUnary (logged (answer None)) () (request not_utf8 True) fresh)))
       = clientRequests (instruments fresh)
   \<and> fst (WrapUnary_c (logged (answer None)) () (request not_utf8 True) fresh_c)
       = Inl (InvalidLabelValue [CHR 0xFF])
   \<and> clientRequests_c (instruments (snd (WrapUnary_c (logged (answer None)) () (request not_utf8 True) fresh_c)))
       = clientRequests_c (instruments fresh_c)"
proof -
  have a: "clientDuration (instruments (snd (WrapUnary (logged (answer None)) () (request ''/svc/m'' True) fresh)))
     [''ok'', ''m'', ''svc'', ''unary''] = Some [5 / 1000000000]"
    by (simp add: WrapUnary_logged_answer [OF Split_svc_m ValidString_svc ValidString_m code_None])
  have b: "clientDuration (instruments fresh) [''ok'', ''m'', ''svc'', ''unary''] = None"
    by (simp add: fresh_def)
  from a b have c: "clientDuration (instruments (snd (WrapUnary (logged (answer None)) () (request ''/svc/m'' True) fresh)))
       \<noteq> clientDuration (instruments fresh)"
    by (metis option.distinct(1))
  have d: "fst (WrapUnary (logged (answer None)) () (request not_utf8 True) fresh)
       = Inl (InvalidLabelValue [CHR 0xFF])"
    "clientRequests (instruments (snd (WrapUnary (logged (answer None)) () (request not_utf8 True) fresh)))
       = clientRequests (instruments fresh)"
    by (simp_all add: WrapUnary_logged_answer_refused [OF Split_not_utf8 code_None not_ValidString_FF])
  have e: "fst (WrapUnary_c (logged (answer None)) () (request not_utf8 True) fresh_c)
       = Inl (InvalidLabelValue [CHR 0xFF])"
    "clientRequests_c (instruments (snd (WrapUnary_c (logged (answer None)) () (request not_utf8 True) fresh_c)))
       = clientRequests_c (instruments fresh_c)"
    by (simp_all add: WrapUnary_c_logged_answer_refused [OF Split_not_utf8 code_None not_ValidString_FF])
  from a b c d e show ?thesis by blast
qed

text \<open>
  C2, as amended. For every procedure that does not split on \<open>/\<close> into exactly three
  segments (for example \<open>bad\<close>, \<open>/only\<close>, \<open>/a/b/c/d\<close>), the wrapped unary function of
  either version returns no response and an error of code internal whose message is
  \<open>procedure in prometheus interceptor malformed: \<close> followed by the procedure; the
  state is left as it was, so the delegate has not been called (its log is unchanged) and
  no counter and no histogram has changed.
\<close>

theorem malformed_rejected:
  assumes "length (Split (Procedure (Spec req)) CHR ''/'') \<noteq> 3"
  shows "WrapUnary (logged next) ctx req h =
           (Inr (None, Some (ConnectError CodeInternal
              (Errorf (''procedure in prometheus interceptor malformed: '' @ Procedure (Spec req))))), h)
     \<and> WrapUnary_c (logged next_c) ctx req g =
           (Inr (None, Some (ConnectError CodeInternal
              (Errorf (''procedure in prometheus interceptor malformed: '' @ Procedure (Spec req))))), g)"
  using assms
  by (simp add: WrapUnary_malformed WrapUnary_c_malformed malformed_def NewError_def)

theorem malformed_rejected_witness:
  "length (Split (Procedure (Spec (request ''bad'' True))) CHR ''/'') \<noteq> 3
   \<and> WrapUnary (logged (answer None)) () (request ''bad'' True) fresh =
       (Inr (None, Some (ConnectError CodeInternal
          (Errorf ''procedure in prometheus interceptor malformed: bad''))), fresh)
   \<and> invocations (snd (WrapUnary (logged (answer None)) () (request ''bad'' True) fresh)) = []
   \<and> WrapUnary_c (logged (answer None)) () (request ''bad'' True) fresh_c =
       (Inr (None, Some (ConnectError CodeInternal
          (Errorf ''procedure in prometheus interceptor malformed: bad''))), fresh_c)
   \<and> length (Split (Procedure (Spec (request ''/a/b/c/d'' False))) CHR ''/'') \<noteq> 3
   \<and> WrapUnary (logged (answer None)) () (request ''/a/b/c/d'' False) fresh =
       (Inr (None, Some (ConnectError CodeInternal
          (Errorf ''procedure in prometheus interceptor malformed: /a/b/c/d''))), fresh)"
  using malformed_rejected [of "request ''bad'' True" "answer None" "()" fresh "answer None" fresh_c]
    malformed_rejected [of "request ''/a/b/c/d'' False" "answer None" "()" fresh "answer None" fresh_c]
  by (simp add: request_def Split_bad Split_abcd)
     (simp add: fresh_def invocations_def)

text \<open>
  C2 as stated names \<open>/only/one\<close> among the procedures that do not split into three
  segments. It does split into three, the empty segment before the first \<open>/\<close>
  included, and the call is delegated and counted.
\<close>

theorem only_one_is_accepted:
  "fst (WrapUnary (logged (answer None)) () (request ''/only/one'' True) fresh)
       = Inr (Some (), None)
   \<and> invocations (snd (WrapUnary (logged (answer None)) () (request ''/only/one'' True) fresh))
       = [((), request ''/only/one'' True)]
   \<and> clientRequests (instruments (snd (WrapUnary (logged (answer None)) () (request ''/only/one'' True) fresh)))
        [''ok'', ''one'', ''only'', ''unary''] = Some 1
   \<and> fst (WrapUnary_c (logged (answer None)) () (request ''/only/one'' True) fresh_c)
       = Inr (Some (), None)
   \<and> invocations (snd (WrapUnary_c (logged (answer None)) () (request ''/only/one'' True) fresh_c))
       = [((), request ''/only/one'' True)]
   \<and> clientRequests_c (instruments (snd (WrapUnary_c (logged (answer None)) () (request ''/only/one'' True) fresh_c)))
        [''ok'', ''one'', ''only'', ''unary''] = Some 1"
proof -
  have v: "ValidString ''only''" "ValidString ''one''"
    by (simp_all add: byte_in_def)
  show ?thesis
    by (simp add: WrapUnary_logged_answer [OF Split_only_one v code_None]
        WrapUnary_c_logged_answer [OF Split_only_one v code_None] invocations_def)
qed

text \<open>
  C3, as amended. The version with histograms rejects a call exactly when its procedure
  does not split on \<open>/\<close> into three segments, that is when it does not hold exactly
  two \<open>/\<close>: the call then fails with the internal error and the state is unchanged, so
  the delegate is not called. A procedure of three segments is never rejected before
  delegation, whatever the segments are (the first need not be empty, and the service
  and the method may be): the delegate is called, once, with the context and the request
  of the call.
\<close>

theorem rejected_iff_not_three_segments:
  "(length (Split (Procedure (Spec req)) CHR ''/'') \<noteq> 3 \<longrightarrow>
      WrapUnary (logged next) ctx req h =
        (Inr (None, Some (malformed (Procedure (Spec req)))), h))
   \<and> (Split (Procedure (Spec req)) CHR ''/'' = [x, sv, mt] \<longrightarrow>
      invocations (snd (WrapUnary (logged next) ctx req h)) = invocations h @ [(ctx, req)])
   \<and> (length (Split (Procedure (Spec req)) CHR ''/'') = 3
        \<longleftrightarrow> count_list (Procedure (Spec req)) CHR ''/'' = 2)"
proof (intro conjI impI)
  assume "length (Split (Procedure (Spec req)) CHR ''/'') \<noteq> 3"
  then show "WrapUnary (logged next) ctx req h =
      (Inr (None, Some (malformed (Procedure (Spec req)))), h)"
    by (rule WrapUnary_malformed)
next
  assume three: "Split (Procedure (Spec req)) CHR ''/'' = [x, sv, mt]"
  show "invocations (snd (WrapUnary (logged next) ctx req h)) = invocations h @ [(ctx, req)]"
    unfolding invocations_def [of "snd (WrapUnary (logged next) ctx req h)"]
    by (simp add: WrapUnary_world [OF three] logged_world)
next
  show "length (Split (Procedure (Spec req)) CHR ''/'') = 3
        \<longleftrightarrow> count_list (Procedure (Spec req)) CHR ''/'' = 2"
    by (rule length_Split_3)
qed

theorem rejected_iff_not_three_segments_witness:
  "length (Split (Procedure (Spec (request ''/only'' True))) CHR ''/'') \<noteq> 3
   \<and> WrapUnary (logged (answer None)) () (request ''/only'' True) fresh
       = (Inr (None, Some (malformed ''/only'')), fresh)
   \<and> Split (Procedure (Spec (request ''//m'' True))) CHR ''/'' = ['''', '''', ''m'']
   \<and> invocations (snd (WrapUnary (logged (answer None)) () (request ''//m'' True) fresh))
       = [((), request ''//m'' True)]
   \<and> Split (Procedure (Spec (request not_utf8 True))) CHR ''/'' = ['''', ''svc'', [CHR 0xFF]]
   \<and> invocations (snd (WrapUnary (logged (answer None)) () (request not_utf8 True) fresh))
       = [((), request not_utf8 True)]"
  using rejected_iff_not_three_segments [of "request ''/only'' True" "answer None" "()" fresh]
    rejected_iff_not_three_segments [of "request ''//m'' True" "answer None" "()" fresh "''''" "''''" "''m''"]
    rejected_iff_not_three_segments [of "request not_utf8 True" "answer None" "()" fresh
      "''''" "''svc''" "[CHR 0xFF]"]
  by (simp add: request_def Split_only Split_empty_service Split_not_utf8)
     (simp add: fresh_def invocations_def)

text \<open>
  C3 as stated has \<open>//m\<close>, \<open>/s/\<close> and \<open>a/b/c\<close> rejected before delegation. Each
  splits into three segments, and each call reaches the delegate, whose outcome is
  returned.
\<close>

theorem empty_segments_are_delegated:
  "fst (WrapUnary (logged (answer None)) () (request ''//m'' True) fresh) = Inr (Some (), None)
   \<and> invocations (snd (WrapUnary (logged (answer None)) () (request ''//m'' True) fresh))
       = [((), request ''//m'' True)]
   \<and> fst (WrapUnary (logged (answer None)) () (request ''/s/'' True) fresh) = Inr (Some (), None)
   \<and> invocations (snd (WrapUnary (logged (answer None)) () (request ''/s/'' True) fresh))
       = [((), request ''/s/'' True)]
   \<and> fst (WrapUnary (logged (answer None)) () (request ''a/b/c'' True) fresh) = Inr (Some (), None)
   \<and> invocations (snd (WrapUnary (logged (answer None)) () (request ''a/b/c'' True) fresh))
       = [((), request ''a/b/c'' True)]"
proof -
  have v: "ValidString ''''" "ValidString ''m''" "ValidString ''s''"
    "ValidString ''b''" "ValidString ''c''"
    by (simp_all add: byte_in_def)
  show ?thesis
    by (simp add: WrapUnary_logged_answer [OF Split_empty_service v(1) v(2) code_None]
        WrapUnary_logged_answer [OF Split_empty_method v(3) v(1) code_None]
        WrapUnary_logged_answer [OF Split_no_leading v(4) v(5) code_None] invocations_def)
qed

text \<open>
  C4, as amended. For every call whose procedure splits into exactly three segments, the
  wrapped unary function of either version calls the delegate exactly once, with the
  context and the request it was given itself: run with a delegate that logs its calls,
  the log grows by the one entry \<open>(ctx, req)\<close>. When the service and the method are
  valid UTF-8 and \<open>code\<close> gives a label for the delegate's error, the call returns the
  response and the error of the delegate as they are. Otherwise the call ends in a panic
  after the delegate has run: it returns nothing, and the state, the vectors included, is
  as the delegate left it.
\<close>

theorem unary_delegates_once:
  assumes "Split (Procedure (Spec req)) CHR ''/'' = [x, service, method]"
  shows "invocations (snd (WrapUnary (logged next) ctx req h)) = invocations h @ [(ctx, req)]
     \<and> (ValidString service \<and> ValidString method
          \<and> \<not> isl (code (snd (fst (next ctx req (unlogged h))))) \<longrightarrow>
        fst (WrapUnary (logged next) ctx req h) = Inr (fst (next ctx req (unlogged h))))
     \<and> (\<not> (ValidString service \<and> ValidString method
             \<and> \<not> isl (code (snd (fst (next ctx req (unlogged h)))))) \<longrightarrow>
        isl (fst (WrapUnary (logged next) ctx req h))
        \<and> unlogged (snd (WrapUnary (logged next) ctx req h)) = snd (next ctx req (unlogged h)))
     \<and> invocations (snd (WrapUnary_c (logged next_c) ctx req g)) = invocations g @ [(ctx, req)]
     \<and> (ValidString service \<and> ValidString method
          \<and> \<not> isl (code (snd (fst (next_c ctx req (unlogged g))))) \<longrightarrow>
        fst (WrapUnary_c (logged next_c) ctx req g) = Inr (fst (next_c ctx req (unlogged g))))
     \<and> (\<not> (ValidString service \<and> ValidString method
             \<and> \<not> isl (code (snd (fst (next_c ctx req (unlogged g)))))) \<longrightarrow>
        isl (fst (WrapUnary_c (logged next_c) ctx req g))
        \<and> unlogged (snd (WrapUnary_c (logged next_c) ctx req g)) = snd (next_c ctx req (unlogged g)))"
proof -
  have a: "invocations (snd (WrapUnary (logged next) ctx req h)) = invocations h @ [(ctx, req)]"
    unfolding invocations_def [of "snd (WrapUnary (logged next) ctx req h)"]
    by (simp add: WrapUnary_world [OF assms] logged_world)
  have b: "fst (WrapUnary (logged next) ctx req h) = Inr (fst (next ctx req (unlogged h)))"
    if "ValidString service \<and> ValidString method
        \<and> \<not> isl (code (snd (fst (next ctx req (unlogged h)))))"
    using WrapUnary_returns [of req x "service" "method" "logged next" ctx h, OF assms] that
    by (simp add: logged_fst)
  have c: "isl (fst (WrapUnary (logged next) ctx req h))
        \<and> unlogged (snd (WrapUnary (logged next) ctx req h)) = snd (next ctx req (unlogged h))"
    if "\<not> (ValidString service \<and> ValidString method
        \<and> \<not> isl (code (snd (fst (next ctx req (unlogged h))))))"
    using WrapUnary_panics [of req x "service" "method" "logged next" ctx h, OF assms] that
    by (simp add: logged_fst unlogged_logged)
  have a_c: "invocations (snd (WrapUnary_c (logged next_c) ctx req g)) = invocations g @ [(ctx, req)]"
    unfolding invocations_def [of "snd (WrapUnary_c (logged next_c) ctx req g)"]
    by (simp add: WrapUnary_c_world [OF assms] logged_world)
  have b_c: "fst (WrapUnary_c (logged next_c) ctx req g) = Inr (fst (next_c ctx req (unlogged g)))"
    if "ValidString service \<and> ValidString method
        \<and> \<not> isl (code (snd (fst (next_c ctx req (unlogged g)))))"
    using WrapUnary_c_returns [of req x "service" "method" "logged next_c" ctx g, OF assms] that
    by (simp add: logged_fst)
  have c_c: "isl (fst (WrapUnary_c (logged next_c) ctx req g))
        \<and> unlogged (snd (WrapUnary_c (logged next_c) ctx req g)) = snd (next_c ctx req (unlogged g))"
    if "\<not> (ValidString service \<and> ValidString method
        \<and> \<not> isl (code (snd (fst (next_c ctx req (unlogged g))))))"
    using WrapUnary_c_panics [of req x "service" "method" "logged next_c" ctx g, OF assms] that
    by (simp add: logged_fst unlogged_logged)
  from a b c a_c b_c c_c show ?thesis by blast
qed

theorem unary_delegates_once_witness:
  "Split (Procedure (Spec (request ''/svc/m'' True))) CHR ''/'' = ['''', ''svc'', ''m'']
   \<and> ValidString ''svc'' \<and> ValidString ''m''
   \<and> \<not> isl (code (snd (fst (answer (Some (Errorf ''boom'')) () (request ''/svc/m'' True)
                              (unlogged fresh)))))
   \<and> fst (WrapUnary (logged (answer (Some (Errorf ''boom'')))) () (request ''/svc/m'' True) fresh)
       = Inr (Some (), Some (Errorf ''boom''))
   \<and> invocations (snd (WrapUnary (logged (answer (Some (Errorf ''boom'')))) () (request ''/svc/m'' True) fresh))
       = [((), request ''/svc/m'' True)]
   \<and> fst (WrapUnary_c (logged (answer (Some (Errorf ''boom'')))) () (request ''/svc/m'' True) fresh_c)
       = Inr (Some (), Some (Errorf ''boom''))
   \<and> invocations (snd (WrapUnary_c (logged (answer (Some (Errorf ''boom'')))) () (request ''/svc/m'' True) fresh_c))
       = [((), request ''/svc/m'' True)]
   \<and> Split (Procedure (Spec (request not_utf8 True))) CHR ''/'' = ['''', ''svc'', [CHR 0xFF]]
   \<and> \<not> ValidString [CHR 0xFF]
   \<and> isl (fst (WrapUnary (logged (answer None)) () (request not_utf8 True) fresh))
   \<and> unlogged (snd (WrapUnary (logged (answer None)) () (request not_utf8 True) fresh))
       = (unlogged fresh)\<lparr>clock := 5\<rparr>
   \<and> invocations (snd (WrapUnary (logged (answer None)) () (request not_utf8 True) fresh))
       = [((), request not_utf8 True)]"
proof -
  have s: "Split (Procedure (Spec (request ''/svc/m'' True))) CHR ''/'' = ['''', ''svc'', ''m'']"
    by (simp add: request_def Split_svc_m)
  have s': "Split (Procedure (Spec (request not_utf8 True))) CHR ''/'' = ['''', ''svc'', [CHR 0xFF]]"
    by (simp add: request_def Split_not_utf8)
  have k: "\<not> isl (code (snd (fst (answer (Some (Errorf ''boom'')) () (request ''/svc/m'' True)
                              (unlogged fresh)))))"
    "\<not> isl (code (snd (fst (answer (Some (Errorf ''boom'')) () (request ''/svc/m'' True)
                              (unlogged fresh_c)))))"
    by (simp_all add: answer_def code_def CodeOf_def)
  note w = unary_delegates_once [of "request ''/svc/m'' True" "''''" "''svc''" "''m''"
      "answer (Some (Errorf ''boom''))" "()" fresh "answer (Some (Errorf ''boom''))" fresh_c, OF s]
  note w' = unary_delegates_once [of "request not_utf8 True" "''''" "''svc''" "[CHR 0xFF]"
      "answer None" "()" fresh "answer None" fresh_c, OF s']
  have 1: "fst (WrapUnary (logged (answer (Some (Errorf ''boom'')))) () (request ''/svc/m'' True) fresh)
       = Inr (Some (), Some (Errorf ''boom''))"
    "invocations (snd (WrapUnary (logged (answer (Some (Errorf ''boom'')))) () (request ''/svc/m'' True) fresh))
       = [((), request ''/svc/m'' True)]"
    "fst (WrapUnary_c (logged (answer (Some (Errorf ''boom'')))) () (request ''/svc/m'' True) fresh_c)
       = Inr (Some (), Some (Errorf ''boom''))"
    "invocations (snd (WrapUnary_c (logged (answer (Some (Errorf ''boom'')))) () (request ''/svc/m'' True) fresh_c))
       = [((), request ''/svc/m'' True)]"
    using w k ValidString_svc ValidString_m
    by (simp_all add: answer_def fresh_def fresh_c_def invocations_def)
  have 2: "isl (fst (WrapUnary (logged (answer None)) () (request not_utf8 True) fresh))"
    "unlogged (snd (WrapUnary (logged (answer None)) () (request not_utf8 True) fresh))
       = (unlogged fresh)\<lparr>clock := 5\<rparr>"
    "invocations (snd (WrapUnary (logged (answer None)) () (request not_utf8 True) fresh))
       = [((), request not_utf8 True)]"
    using w' not_ValidString_FF
    by (simp_all add: answer_def fresh_def unlogged_def with_world_def invocations_def)
  from s ValidString_svc ValidString_m k(1) 1 s' not_ValidString_FF 2 show ?thesis by blast
qed

text \<open>
  C4 as stated has the delegate's response and error returned for every procedure of
  three segments. For the procedure \<open>/svc/\<close> followed by the byte \<open>0xFF\<close> the delegate
  is called once and succeeds, and the call then ends in the panic of
  \<^verbatim>\<open>WithLabelValues\<close>; for a delegate whose error holds a nil \<^verbatim>\<open>*connect.Error\<close> it
  ends in the panic of \<^verbatim>\<open>code\<close>. Neither call returns the delegate's outcome.
\<close>

theorem delegate_outcome_lost_in_panic:
  "fst (WrapUnary (logged (answer None)) () (request not_utf8 True) fresh)
       = Inl (InvalidLabelValue [CHR 0xFF])
   \<and> invocations (snd (WrapUnary (logged (answer None)) () (request not_utf8 True) fresh))
       = [((), request not_utf8 True)]
   \<and> fst (WrapUnary_c (logged (answer None)) () (request not_utf8 True) fresh_c)
       = Inl (InvalidLabelValue [CHR 0xFF])
   \<and> fst (WrapUnary (logged (answer (Some NilConnectError))) () (request ''/svc/m'' True) fresh)
       = Inl NilPointerDereference
   \<and> invocations (snd (WrapUnary (logged (answer (Some NilConnectError))) () (request ''/svc/m'' True) fresh))
       = [((), request ''/svc/m'' True)]"
  by (simp add: WrapUnary_logged_answer_refused [OF Split_not_utf8 code_None not_ValidString_FF]
      WrapUnary_c_logged_answer_refused [OF Split_not_utf8 code_None not_ValidString_FF]
      WrapUnary_logged_answer_nil [OF Split_svc_m code_NilConnectError] invocations_def)

text \<open>
  C5, as amended. The \<open>code\<close> label: the nil error gives \<open>ok\<close>; an error that carries no
  \<^verbatim>\<open>*connect.Error\<close> gives \<open>unknown\<close>; an error that is a \<^verbatim>\<open>*connect.Error\<close> gives
  the name of its code, which for the sixteen codes of the enumeration is the canonical
  name and for any other number \<open>n\<close> is \<open>code_n\<close>; an error that wraps another gives
  what the wrapped one gives, at any depth. The derivation is not defined for every
  outcome: on an error that holds a nil \<^verbatim>\<open>*connect.Error\<close> \<open>code\<close> panics. A label
  that is given is never the empty string.
\<close>

theorem code_label_derivation:
  "code None = Inr ''ok''
   \<and> code (Some (Errorf m)) = Inr ''unknown''
   \<and> code (Some (ConnectError c underlying)) = Inr (Code_String c)
   \<and> code (Some NilConnectError) = Inl NilPointerDereference
   \<and> code (Some (Wrapped m e)) = code (Some e)
   \<and> map Code_String codes
      = [''canceled'', ''unknown'', ''invalid_argument'', ''deadline_exceeded'',
         ''not_found'', ''already_exists'', ''permission_denied'', ''resource_exhausted'',
         ''failed_precondition'', ''aborted'', ''out_of_range'', ''unimplemented'',
         ''internal'', ''unavailable'', ''data_loss'', ''unauthenticated'']
   \<and> (c \<notin> set codes \<longrightarrow> Code_String c = ''code_'' @ decimal (unat c))
   \<and> (code err = Inr l \<longrightarrow> l \<noteq> [])"
proof -
  have ok: "code None = Inr ''ok''" by (simp add: code_def)
  have plain: "code (Some (Errorf m)) = Inr ''unknown''"
    by (simp add: code_def CodeOf_def Code_String_def Code_defs)
  have connect: "code (Some (ConnectError c underlying)) = Inr (Code_String c)"
    by (simp add: code_def CodeOf_def Error_Code_def)
  have nil: "code (Some NilConnectError) = Inl NilPointerDereference"
    by (simp add: code_def CodeOf_def Error_Code_def)
  have wrapped: "code (Some (Wrapped m e)) = code (Some e)"
    by (simp add: code_def CodeOf_def)
  have names: "map Code_String codes
      = [''canceled'', ''unknown'', ''invalid_argument'', ''deadline_exceeded'',
         ''not_found'', ''already_exists'', ''permission_denied'', ''resource_exhausted'',
         ''failed_precondition'', ''aborted'', ''out_of_range'', ''unimplemented'',
         ''internal'', ''unavailable'', ''data_loss'', ''unauthenticated'']"
    by (simp add: codes_def Code_String_def Code_defs)
  have other: "Code_String c = ''code_'' @ decimal (unat c)" if "c \<notin> set codes"
    using that by (simp add: codes_def Code_String_def)
  have nonempty: "l \<noteq> []" if "code err = Inr l"
    using that
    by (auto simp: code_def Code_String_not_Nil split: option.splits sum.splits)
  from ok plain connect nil wrapped names other nonempty show ?thesis by blast
qed

theorem code_label_derivation_witness:
  "(17 :: Code) \<notin> set codes
   \<and> Code_String 17 = ''code_17''
   \<and> code (Some (Wrapped ''a'' (Wrapped ''b'' (ConnectError CodeAborted (Errorf ''x'')))))
       = Inr ''aborted''
   \<and> code (Some (Wrapped ''a'' (Wrapped ''b'' (Errorf ''x'')))) = Inr ''unknown''
   \<and> code (Some (Errorf ''x'')) = Inr ''unknown'' \<and> ''unknown'' \<noteq> []"
proof -
  have n: "(17 :: Code) \<notin> set codes" by (simp add: codes_def Code_defs)
  have d: "decimal (unat (17 :: Code)) = ''17''" by (simp add: decimal.simps)
  have a: "Code_String CodeAborted = ''aborted''" by (simp add: Code_String_def Code_defs)
  note w = code_label_derivation
  have 1: "Code_String 17 = ''code_17''"
    using w [of _ 17] n d by simp
  have 2: "code (Some (Wrapped ''a'' (Wrapped ''b'' (ConnectError CodeAborted (Errorf ''x'')))))
       = Inr ''aborted''"
    using w [of "''a''" CodeAborted "Errorf ''x''" "Wrapped ''b'' (ConnectError CodeAborted (Errorf ''x''))"]
      w [of "''b''" CodeAborted "Errorf ''x''" "ConnectError CodeAborted (Errorf ''x'')"] a
    by simp
  have 3: "code (Some (Wrapped ''a'' (Wrapped ''b'' (Errorf ''x'')))) = Inr ''unknown''"
    using w [of "''a''" _ _ "Wrapped ''b'' (Errorf ''x'')"]
      w [of "''b''" _ _ "Errorf ''x''"] w [of "''x''"]
    by simp
  have 4: "code (Some (Errorf ''x'')) = Inr ''unknown'' \<and> ''unknown'' \<noteq> []"
    using w [of "''x''" _ _ _ "Some (Errorf ''x'')" "''unknown''"] by simp
  from n 1 2 3 4 show ?thesis by blast
qed

text \<open>
  C5 as stated has every failure without a recognizable status code give \<open>unknown\<close>,
  and the derivation defined for every outcome. A \<^verbatim>\<open>*connect.Error\<close> with the code
  17, which is none of the sixteen, gives \<open>code_17\<close>; and on an error that holds a nil
  \<^verbatim>\<open>*connect.Error\<close> the derivation panics and gives no label.
\<close>

theorem code_outside_enumeration:
  "code (Some (ConnectError 17 (Errorf ''x''))) = Inr ''code_17''
   \<and> code (Some (ConnectError 17 (Errorf ''x''))) \<noteq> Inr ''unknown''
   \<and> code (Some NilConnectError) = Inl NilPointerDereference"
  by (simp add: code_def CodeOf_def Error_Code_def Code_String_def Code_defs decimal.simps)

text \<open>
  C6. The \<open>type\<close> label is a fixed mapping defined for every stream type: unary gives
  \<open>unary\<close>, client streaming \<open>client_stream\<close>, server streaming \<open>server_stream\<close>,
  bidirectional \<open>bidi_stream\<close>, and every other value of the type gives the empty
  string.
\<close>

theorem streamType_mapping:
  "streamType StreamTypeUnary = ''unary''
   \<and> streamType StreamTypeClient = ''client_stream''
   \<and> streamType StreamTypeServer = ''server_stream''
   \<and> streamType StreamTypeBidi = ''bidi_stream''
   \<and> (t \<notin> {StreamTypeUnary, StreamTypeClient, StreamTypeServer, StreamTypeBidi}
        \<longrightarrow> streamType t = [])"
  by (simp add: streamType_def StreamType_defs)

theorem streamType_mapping_witness:
  "(4 :: StreamType) \<notin> {StreamTypeUnary, StreamTypeClient, StreamTypeServer, StreamTypeBidi}
   \<and> streamType 4 = [] \<and> streamType 3 = ''bidi_stream''"
  using streamType_mapping [of 4] by (simp add: StreamType_defs)



text \<open>
  C8. Both streaming wrap operations, in either version, are the identity: each returns
  the delegate it is given. They are functions of the delegate alone, so they record no
  metric and change no state, and the returned delegate behaves as the given one.
\<close>

theorem streaming_wraps_identity:
  "WrapStreamingClient handle = handle
   \<and> WrapStreamingHandler handle' = handle'
   \<and> WrapStreamingClient_c handle = handle
   \<and> WrapStreamingHandler_c handle' = handle'"
  by (simp add: WrapStreamingClient_def WrapStreamingHandler_def
      WrapStreamingClient_c_def WrapStreamingHandler_c_def)

text \<open>
  C9, as amended. Given a registry in which none of its names is registered yet, the
  constructor of the version with histograms registers exactly four vectors, in this
  order: the counter \<open>connect_client_requests_total\<close>, the histogram
  \<open>connect_client_requests_duration_seconds\<close>, the counter
  \<open>connect_server_requests_total\<close> and the histogram
  \<open>connect_server_requests_duration_seconds\<close>, all with the label names code, method,
  service, type, and each histogram with bucket factor 1.1 and at most 100 buckets. The
  constructor of the version with counters only registers exactly the two counters, with
  the same names and label names.
\<close>

theorem constructors_register:
  "(set [''connect_client_requests_total'', ''connect_client_requests_duration_seconds'',
         ''connect_server_requests_total'', ''connect_server_requests_duration_seconds'']
      \<inter> set (map Name cs) = {} \<longrightarrow>
    NewInterceptor (Some cs) =
      Inr (\<lparr>clientRequests = Map.empty, clientDuration = Map.empty,
            serverRequests = Map.empty, serverDuration = Map.empty\<rparr>,
           Some (cs @
             [NewCounterVec ''connect_client_requests_total''
                ''Tracks the number of connect client requests by code, method, service and type.''
                [''code'', ''method'', ''service'', ''type''],
              NewHistogramVec ''connect_client_requests_duration_seconds''
                ''Tracks the latencies of connect client requests by code, method, service and type.''
                (11 / 10) 100 [''code'', ''method'', ''service'', ''type''],
              NewCounterVec ''connect_server_requests_total''
                ''Tracks the number of connect server requests by code, method, service and type.''
                [''code'', ''method'', ''service'', ''type''],
              NewHistogramVec ''connect_server_requests_duration_seconds''
                ''Tracks the latencies of connect server requests by code, method, service and type.''
                (11 / 10) 100 [''code'', ''method'', ''service'', ''type'']])))
   \<and> (set [''connect_client_requests_total'', ''connect_server_requests_total'']
      \<inter> set (map Name ds) = {} \<longrightarrow>
    NewInterceptor_c (Some ds) =
      Inr (\<lparr>clientRequests_c = Map.empty, serverRequests_c = Map.empty\<rparr>,
           Some (ds @
             [NewCounterVec ''connect_client_requests_total''
                ''Tracks the number of connect client requests by code, method, service and type.''
                [''code'', ''method'', ''service'', ''type''],
              NewCounterVec ''connect_server_requests_total''
                ''Tracks the number of connect server requests by code, method, service and type.''
                [''code'', ''method'', ''service'', ''type'']])))"
proof (intro conjI impI)
  assume a: "set [''connect_client_requests_total'', ''connect_client_requests_duration_seconds'',
         ''connect_server_requests_total'', ''connect_server_requests_duration_seconds'']
      \<inter> set (map Name cs) = {}"
  then have
    "''connect_client_requests_total'' \<notin> Name ` set cs"
    "''connect_client_requests_duration_seconds'' \<notin> Name ` set cs"
    "''connect_server_requests_total'' \<notin> Name ` set cs"
    "''connect_server_requests_duration_seconds'' \<notin> Name ` set cs"
    by auto
  then show "NewInterceptor (Some cs) =
      Inr (\<lparr>clientRequests = Map.empty, clientDuration = Map.empty,
            serverRequests = Map.empty, serverDuration = Map.empty\<rparr>,
           Some (cs @
             [NewCounterVec ''connect_client_requests_total''
                ''Tracks the number of connect client requests by code, method, service and type.''
                [''code'', ''method'', ''service'', ''type''],
              NewHistogramVec ''connect_client_requests_duration_seconds''
                ''Tracks the latencies of connect client requests by code, method, service and type.''
                (11 / 10) 100 [''code'', ''method'', ''service'', ''type''],
              NewCounterVec ''connect_server_requests_total''
                ''Tracks the number of connect server requests by code, method, service and type.''
                [''code'', ''method'', ''service'', ''type''],
              NewHistogramVec ''connect_server_requests_duration_seconds''
                ''Tracks the latencies of connect server requests by code, method, service and type.''
                (11 / 10) 100 [''code'', ''method'', ''service'', ''type'']]))"
    by (simp add: NewInterceptor_def MustRegister_def labelNames_lit_def)
next
  assume "set [''connect_client_requests_total'', ''connect_server_requests_total'']
      \<inter> set (map Name ds) = {}"
  then have
    "''connect_client_requests_total'' \<notin> Name ` set ds"
    "''connect_server_requests_total'' \<notin> Name ` set ds"
    by auto
  then show "NewInterceptor_c (Some ds) =
      Inr (\<lparr>clientRequests_c = Map.empty, serverRequests_c = Map.empty\<rparr>,
           Some (ds @
             [NewCounterVec ''connect_client_requests_total''
                ''Tracks the number of connect client requests by code, method, service and type.''
                [''code'', ''method'', ''service'', ''type''],
              NewCounterVec ''connect_server_requests_total''
                ''Tracks the number of connect server requests by code, method, service and type.''
                [''code'', ''method'', ''service'', ''type'']]))"
    by (simp add: NewInterceptor_c_def MustRegister_def Let_def)
qed

theorem constructors_register_witness:
  "set [''connect_client_requests_total'', ''connect_client_requests_duration_seconds'',
        ''connect_server_requests_total'', ''connect_server_requests_duration_seconds'']
      \<inter> set (map Name []) = {}
   \<and> registered (NewInterceptor (Some [])) =
       [NewCounterVec ''connect_client_requests_total''
          ''Tracks the number of connect client requests by code, method, service and type.''
          [''code'', ''method'', ''service'', ''type''],
        NewHistogramVec ''connect_client_requests_duration_seconds''
          ''Tracks the latencies of connect client requests by code, method, service and type.''
          (11 / 10) 100 [''code'', ''method'', ''service'', ''type''],
        NewCounterVec ''connect_server_requests_total''
          ''Tracks the number of connect server requests by code, method, service and type.''
          [''code'', ''method'', ''service'', ''type''],
        NewHistogramVec ''connect_server_requests_duration_seconds''
          ''Tracks the latencies of connect server requests by code, method, service and type.''
          (11 / 10) 100 [''code'', ''method'', ''service'', ''type'']]
   \<and> map labelNames (registered (NewInterceptor (Some []))) =
       replicate 4 [''code'', ''method'', ''service'', ''type'']
   \<and> set [''connect_client_requests_total'', ''connect_server_requests_total'']
      \<inter> set (map Name []) = {}
   \<and> map Name (registered (NewInterceptor_c (Some []))) =
       [''connect_client_requests_total'', ''connect_server_requests_total'']
   \<and> map labelNames (registered (NewInterceptor_c (Some []))) =
       replicate 2 [''code'', ''method'', ''service'', ''type'']"
  using constructors_register [of "[]" "[]"]
  by (simp add: registered_def numeral_eq_Suc)

text \<open>
  C9 as stated has the constructor register four instruments. The constructor of the
  version with counters only registers two, and no histogram.
\<close>

theorem counter_only_registers_two:
  "length (registered (NewInterceptor_c (Some []))) = 2
   \<and> map Name (registered (NewInterceptor_c (Some []))) =
       [''connect_client_requests_total'', ''connect_server_requests_total'']"
  by (simp add: NewInterceptor_c_def MustRegister_def Let_def registered_def)

text \<open>
  C10. When the procedure is rejected as malformed, the wrapped unary function of either
  version returns the nil response (\<^const>\<open>None\<close>), together with the internal error.
\<close>

theorem malformed_returns_nil_response:
  assumes "length (Split (Procedure (Spec req)) CHR ''/'') \<noteq> 3"
  shows "fst (WrapUnary next ctx req h) =
           Inr (None, Some (ConnectError CodeInternal
              (Errorf (''procedure in prometheus interceptor malformed: '' @ Procedure (Spec req)))))
     \<and> fst (WrapUnary_c next_c ctx req g) =
           Inr (None, Some (ConnectError CodeInternal
              (Errorf (''procedure in prometheus interceptor malformed: '' @ Procedure (Spec req)))))"
  using assms
  by (simp add: WrapUnary_malformed WrapUnary_c_malformed malformed_def NewError_def)

theorem malformed_returns_nil_response_witness:
  "length (Split (Procedure (Spec (request ''bad'' False))) CHR ''/'') \<noteq> 3
   \<and> fst (WrapUnary (answer None) () (request ''bad'' False) fresh)
        = Inr (None, Some (ConnectError CodeInternal
            (Errorf ''procedure in prometheus interceptor malformed: bad'')))
   \<and> fst (WrapUnary_c (answer None) () (request ''bad'' False) fresh_c)
        = Inr (None, Some (ConnectError CodeInternal
            (Errorf ''procedure in prometheus interceptor malformed: bad'')))"
  using malformed_returns_nil_response [of "request ''bad'' False" "answer None" "()" fresh
      "answer None" fresh_c]
  by (simp add: request_def Split_bad)

end
